theory Spec2Isabelle
  imports Complex_Main
begin

section \<open>Labelled arrays\<close>

text \<open>
  The notebooks compute on xarray \<^verbatim>\<open>DataArray\<close> objects: an n-dimensional block of
  values with one coordinate sequence per dimension. A two-dimensional array is a
  record of the coordinates along its first and second dimension and of its cells,
  one inner list per position of the first dimension. The vegetation-index rasters
  of \<^verbatim>\<open>2.0_Preprocessing\<close> have dimensions \<^verbatim>\<open>(y, x)\<close>, the unstacked label
  rasters of \<^verbatim>\<open>3.0_Spectral_Clustering_PC\<close> have dimensions \<^verbatim>\<open>(x, y)\<close>.

  The operations on these arrays are calls into xarray, numpy and pandas. Each of
  them is modelled below as the library documents it, with the defaults of the
  arguments the notebook leaves out; coordinates are real numbers.
\<close>

datatype py_error = ValueError | IndexError

record 'v arr2 =
  coords0 :: "real list"
  coords1 :: "real list"
  cells :: "'v list list"

definition wf_arr2 :: "'v arr2 \<Rightarrow> bool" where
  "wf_arr2 a \<longleftrightarrow>
     length (cells a) = length (coords0 a) \<and>
     list_all (\<lambda>row. length row = length (coords1 a)) (cells a)"

section \<open>Water mask\<close>

text \<open>
  \<^verbatim>\<open>water_1988 = unstacked_1988.where(unstacked_1988 == water_cluster_1988, 0)\<close>

  \<^verbatim>\<open>unstacked == t\<close> compares every cell with the scalar and keeps the coordinates.
  \<^verbatim>\<open>a.where(cond, other)\<close> with \<^verbatim>\<open>other\<close> given joins \<^verbatim>\<open>a\<close> and \<^verbatim>\<open>cond\<close> exactly
  (differing coordinates raise \<^verbatim>\<open>ValueError\<close>), keeps the cells of \<^verbatim>\<open>a\<close> where
  \<^verbatim>\<open>cond\<close> holds and puts \<^verbatim>\<open>other\<close> elsewhere. Cluster labels are integers.
\<close>

definition eq_scalar :: "int arr2 \<Rightarrow> int \<Rightarrow> bool arr2" where
  "eq_scalar a t =
     \<lparr>coords0 = coords0 a, coords1 = coords1 a, cells = map (map (\<lambda>v. v = t)) (cells a)\<rparr>"

definition where_other :: "int arr2 \<Rightarrow> bool arr2 \<Rightarrow> int \<Rightarrow> py_error + int arr2" where
  "where_other a cond other =
     (if coords0 cond = coords0 a \<and> coords1 cond = coords1 a
      then Inr \<lparr>coords0 = coords0 a, coords1 = coords1 a,
                cells = map2 (map2 (\<lambda>v c. if c then v else other)) (cells a) (cells cond)\<rparr>
      else Inl ValueError)"

definition water_mask :: "int arr2 \<Rightarrow> int \<Rightarrow> py_error + int arr2" where
  "water_mask unstacked water_cluster =
     where_other unstacked (eq_scalar unstacked water_cluster) 0"

section \<open>Arithmetic between two arrays\<close>

text \<open>
  \<^verbatim>\<open>NDVI_diff = NDVI_2017 - NDVI_1988\<close> and \<^verbatim>\<open>water_diff = water_1988 - water_2017\<close>

  A binary operation of xarray first aligns its operands, dimension by dimension,
  with the join \<^verbatim>\<open>arithmetic_join = "inner"\<close> that the notebooks leave at its
  default: equal coordinate sequences are kept as they are; otherwise both operands
  are reindexed to the coordinates of the first that also occur in the second, and
  reindexing an operand whose coordinates repeat a value raises \<^verbatim>\<open>ValueError\<close>.
  The operation is then applied cell by cell. \<open>join_inner\<close> returns the joined
  coordinates and, for each operand, the positions they have there.
\<close>

definition index_of :: "real list \<Rightarrow> real \<Rightarrow> nat" where
  "index_of xs c = length (takeWhile (\<lambda>x. x \<noteq> c) xs)"

definition join_inner ::
  "real list \<Rightarrow> real list \<Rightarrow> py_error + (real list \<times> nat list \<times> nat list)" where
  "join_inner xs ys =
     (if xs = ys then Inr (xs, [0..<length xs], [0..<length ys])
      else if \<not> distinct xs \<or> \<not> distinct ys then Inl ValueError
      else (let common = filter (\<lambda>c. c \<in> set ys) xs
            in Inr (common, map (index_of xs) common, map (index_of ys) common)))"

definition arith2 :: "('a \<Rightarrow> 'b \<Rightarrow> 'c) \<Rightarrow> 'a arr2 \<Rightarrow> 'b arr2 \<Rightarrow> py_error + 'c arr2" where
  "arith2 f a b =
     (case join_inner (coords0 a) (coords0 b) of
        Inl e \<Rightarrow> Inl e
      | Inr (c0, ia, ib) \<Rightarrow>
          (case join_inner (coords1 a) (coords1 b) of
             Inl e \<Rightarrow> Inl e
           | Inr (c1, ja, jb) \<Rightarrow>
               Inr \<lparr>coords0 = c0, coords1 = c1,
                    cells = map (\<lambda>(i, i'). map (\<lambda>(j, j'). f (cells a ! i ! j) (cells b ! i' ! j'))
                                                (zip ja jb))
                                (zip ia ib)\<rparr>))"

text \<open>The cell of an array at a pair of coordinate values.\<close>

definition cell_at :: "'v arr2 \<Rightarrow> real \<Rightarrow> real \<Rightarrow> 'v" where
  "cell_at a c0 c1 = cells a ! index_of (coords0 a) c0 ! index_of (coords1 a) c1"

definition water_diff :: "int arr2 \<Rightarrow> int arr2 \<Rightarrow> py_error + int arr2" where
  "water_diff water_1988 water_2017 = arith2 (\<lambda>v w. v - w) water_1988 water_2017"

section \<open>Floating-point values\<close>

text \<open>
  The vegetation index, the standardized samples and the downsampled difference
  are arrays of numpy \<^verbatim>\<open>float64\<close> numbers. The model keeps the special values
  that decide what an operation does at the edges, the not-a-number \<open>NaN\<close> (xarray's
  marker of a missing value) and the two infinities; the sign of zero is not
  modelled. No arithmetic operation on numpy arrays raises: with numpy's default
  error state a division by zero gives \<open>NaN\<close> (for \<^verbatim>\<open>0/0\<close>) or an infinity and a
  warning. \<open>fdiv\<close>, \<open>fl_sub\<close> and the means of the downsampler take the arithmetic
  on finite values as exact; the standardizer takes its rounding as a parameter.
\<close>

datatype fl = Fin real | PInf | NInf | NaN

definition fdiv :: "real \<Rightarrow> real \<Rightarrow> fl" where
  "fdiv a b =
     (if b \<noteq> 0 then Fin (a / b)
      else if a = 0 then NaN
      else if 0 < a then PInf else NInf)"

fun fl_sub :: "fl \<Rightarrow> fl \<Rightarrow> fl" where
  "fl_sub (Fin a) (Fin b) = Fin (a - b)"
| "fl_sub NaN _ = NaN"
| "fl_sub _ NaN = NaN"
| "fl_sub PInf PInf = NaN"
| "fl_sub NInf NInf = NaN"
| "fl_sub PInf _ = PInf"
| "fl_sub NInf _ = NInf"
| "fl_sub (Fin a) PInf = NInf"
| "fl_sub (Fin a) NInf = PInf"

section \<open>Vegetation index\<close>

text \<open>
  \<^verbatim>\<open>NDVI_1988 = (landsat_5_da.sel(band=4) - landsat_5_da.sel(band=3))
            / (landsat_5_da.sel(band=4) + landsat_5_da.sel(band=3))\<close>

  The two operands are the near-infrared and the red band of one scene, arrays of
  dimensions \<^verbatim>\<open>(y, x)\<close> with finite values. Each of the three operations aligns
  its operands as \<open>arith2\<close> does.
\<close>

definition ndvi_px :: "real \<Rightarrow> real \<Rightarrow> fl" where
  "ndvi_px nir red = fdiv (nir - red) (nir + red)"

definition NDVI :: "real arr2 \<Rightarrow> real arr2 \<Rightarrow> py_error + fl arr2" where
  "NDVI nir red =
     (case arith2 (\<lambda>v w. v - w) nir red of
        Inl e \<Rightarrow> Inl e
      | Inr num \<Rightarrow>
          (case arith2 (\<lambda>v w. v + w) nir red of
             Inl e \<Rightarrow> Inl e
           | Inr den \<Rightarrow> arith2 fdiv num den))"

definition NDVI_diff :: "fl arr2 \<Rightarrow> fl arr2 \<Rightarrow> py_error + fl arr2" where
  "NDVI_diff NDVI_2017 NDVI_1988 = arith2 fl_sub NDVI_2017 NDVI_1988"

section \<open>Standardizer\<close>

text \<open>
  \<^verbatim>\<open>rescaled_xda = (flattened_t_xda - flattened_t_xda.mean()) / flattened_t_xda.std()\<close>

  The sample matrix has one row per pixel and one column per band; its values are
  the finite band values of the scene. \<^verbatim>\<open>mean()\<close> and \<^verbatim>\<open>std()\<close> without
  arguments each reduce the whole matrix, all pixels and all bands at once, to one
  \<^verbatim>\<open>float64\<close> scalar; the subtraction and the division are then done cell by cell
  in \<^verbatim>\<open>float64\<close>.

  The notebook fixes neither the order in which the two reductions add up the cells
  (it is numpy's and, over chunks, dask's) nor the rounding of the arithmetic. Both
  are parameters of the model, so that what is proved holds whatever they are:
  \<open>mean\<close> and \<open>std\<close> stand for the two reductions, and \<open>rnd\<close> maps the exact result
  of an operation on finite operands to the \<^verbatim>\<open>float64\<close> value it comes out as, a
  finite number or, on overflow, an infinity. On the special values subtraction and
  division follow IEEE 754; as everywhere on numpy arrays, a division by zero
  raises nothing and gives \<open>NaN\<close> or an infinity.
\<close>

definition fl_sub_rnd :: "(real \<Rightarrow> fl) \<Rightarrow> fl \<Rightarrow> fl \<Rightarrow> fl" where
  "fl_sub_rnd rnd a b =
     (case (a, b) of
        (Fin x, Fin y) \<Rightarrow> rnd (x - y)
      | _ \<Rightarrow> fl_sub a b)"

fun fl_div_rnd :: "(real \<Rightarrow> fl) \<Rightarrow> fl \<Rightarrow> fl \<Rightarrow> fl" where
  "fl_div_rnd rnd (Fin a) (Fin b) = (if b \<noteq> 0 then rnd (a / b) else fdiv a b)"
| "fl_div_rnd rnd NaN _ = NaN"
| "fl_div_rnd rnd _ NaN = NaN"
| "fl_div_rnd rnd (Fin a) _ = Fin 0"
| "fl_div_rnd rnd PInf (Fin b) = (if b < 0 then NInf else PInf)"
| "fl_div_rnd rnd NInf (Fin b) = (if b < 0 then PInf else NInf)"
| "fl_div_rnd rnd _ _ = NaN"

text \<open>
  In the examples the two reductions are given by the value they return on the
  example matrix, and the rounding leaves a representable result as it is.
\<close>

definition returns :: "fl \<Rightarrow> real list \<Rightarrow> fl" where
  "returns v cells_of_matrix = v"

definition rescaled_xda ::
  "(real \<Rightarrow> fl) \<Rightarrow> (real list \<Rightarrow> fl) \<Rightarrow> (real list \<Rightarrow> fl) \<Rightarrow> real list list
     \<Rightarrow> py_error + fl list list" where
  "rescaled_xda rnd mean std m =
     (let mu = mean (concat m); sd = std (concat m)
      in Inr (map (map (\<lambda>x. fl_div_rnd rnd (fl_sub_rnd rnd (Fin x) mu) sd)) m))"

section \<open>Downsampler\<close>








section \<open>Flatten and un-flatten\<close>

text \<open>
  \<^verbatim>\<open>flattened_xda = da_2017.stack(z=("x", "y"))\<close>,
  \<^verbatim>\<open>flattened_t_xda = flattened_xda.transpose("z", "band")\<close>

  The scene is an array of dimensions \<^verbatim>\<open>(band, y, x)\<close>. \<^verbatim>\<open>stack\<close> replaces \<^verbatim>\<open>x\<close>
  and \<^verbatim>\<open>y\<close> by one dimension \<^verbatim>\<open>z\<close> whose coordinate is the multi-index of the pairs
  \<open>(x, y)\<close>, the first level varying slowest; \<^verbatim>\<open>transpose\<close> makes \<^verbatim>\<open>z\<close> the first
  dimension, so that a row is a pixel and a column is a band.
\<close>

record ('b, 'v) arr3 =
  band3 :: "'b list"
  y3 :: "real list"
  x3 :: "real list"
  data3 :: "'v list list list"

definition wf_arr3 :: "('b, 'v) arr3 \<Rightarrow> bool" where
  "wf_arr3 a \<longleftrightarrow>
     length (data3 a) = length (band3 a) \<and>
     list_all (\<lambda>plane. length plane = length (y3 a) \<and>
                       list_all (\<lambda>row. length row = length (x3 a)) plane) (data3 a)"

record ('b, 'v) stacked =
  sband :: "'b list"
  sz :: "(real \<times> real) list"
  sdata :: "'v list list"

record ('b, 'v) samples =
  fz :: "(real \<times> real) list"
  fband :: "'b list"
  fdata :: "'v list list"

definition stack_z :: "('b, 'v) arr3 \<Rightarrow> ('b, 'v) stacked" where
  "stack_z a =
     \<lparr>sband = band3 a,
      sz = List.product (x3 a) (y3 a),
      sdata = map (\<lambda>plane. map (\<lambda>(i, j). plane ! j ! i)
                                   (List.product [0..<length (x3 a)] [0..<length (y3 a)]))
                  (data3 a)\<rparr>"

definition transpose_z_band :: "('b, 'v) stacked \<Rightarrow> ('b, 'v) samples" where
  "transpose_z_band s =
     \<lparr>fz = sz s, fband = sband s,
      fdata = map (\<lambda>n. map (\<lambda>col. col ! n) (sdata s)) [0..<length (sz s)]\<rparr>"

definition flattened_t_xda :: "('b, 'v) arr3 \<Rightarrow> ('b, 'v) samples" where
  "flattened_t_xda da = transpose_z_band (stack_z da)"

text \<open>
  \<^verbatim>\<open>template = flattened_t_xda[:, 0]\<close>,
  \<^verbatim>\<open>output_array = template.copy(data=labels)\<close>,
  \<^verbatim>\<open>unstacked_2017 = output_array.unstack()\<close>

  Indexing a column that is not there raises \<^verbatim>\<open>IndexError\<close>; \<^verbatim>\<open>copy\<close> raises
  \<^verbatim>\<open>ValueError\<close> for data of another shape; \<^verbatim>\<open>unstack\<close> raises \<^verbatim>\<open>ValueError\<close> for
  a multi-index with a repeated entry. The unstacked array has the dimensions
  \<^verbatim>\<open>(x, y)\<close>, each with the values of its level in the order of their first
  appearance, and holds the missing-value marker, here \<open>None\<close>, at a pair that the
  multi-index does not have.
\<close>

record 'v vec_z =
  vz :: "(real \<times> real) list"
  vdata :: "'v list"

definition column :: "('b, 'v) samples \<Rightarrow> nat \<Rightarrow> py_error + 'v vec_z" where
  "column f k =
     (if k < length (fband f) then Inr \<lparr>vz = fz f, vdata = map (\<lambda>row. row ! k) (fdata f)\<rparr>
      else Inl IndexError)"

definition copy_data :: "'v vec_z \<Rightarrow> 'w list \<Rightarrow> py_error + 'w vec_z" where
  "copy_data template labels =
     (if length labels = length (vdata template)
      then Inr \<lparr>vz = vz template, vdata = labels\<rparr>
      else Inl ValueError)"

primrec first_seen :: "'a list \<Rightarrow> 'a list" where
  "first_seen [] = []"
| "first_seen (c # cs) = c # filter (\<lambda>d. d \<noteq> c) (first_seen cs)"

definition unstack :: "'v vec_z \<Rightarrow> py_error + 'v option arr2" where
  "unstack v =
     (if \<not> distinct (vz v) then Inl ValueError
      else (let c0 = first_seen (map fst (vz v)); c1 = first_seen (map snd (vz v))
            in Inr \<lparr>coords0 = c0, coords1 = c1,
                    cells = map (\<lambda>cx. map (\<lambda>cy. map_of (zip (vz v) (vdata v)) (cx, cy)) c1) c0\<rparr>))"

definition unstacked :: "('b, 'v) samples \<Rightarrow> 'w list \<Rightarrow> py_error + 'w option arr2" where
  "unstacked flattened labels =
     (case column flattened 0 of
        Inl e \<Rightarrow> Inl e
      | Inr template \<Rightarrow>
          (case copy_data template labels of
             Inl e \<Rightarrow> Inl e
           | Inr output_array \<Rightarrow> unstack output_array))"

section \<open>Example inputs\<close>


definition nir0 :: "real arr2" where
  "nir0 = \<lparr>coords0 = [0], coords1 = [0, 30], cells = [[3, 0]]\<rparr>"
definition red0 :: "real arr2" where
  "red0 = \<lparr>coords0 = [0], coords1 = [0, 30], cells = [[1, 0]]\<rparr>"
definition nir1 :: "real arr2" where
  "nir1 = \<lparr>coords0 = [0], coords1 = [0], cells = [[1]]\<rparr>"
definition red1 :: "real arr2" where
  "red1 = \<lparr>coords0 = [0], coords1 = [0], cells = [[- 1]]\<rparr>"

definition ndvi_a :: "fl arr2" where
  "ndvi_a = \<lparr>coords0 = [0], coords1 = [0, 30, 60], cells = [[Fin 1, Fin 2, Fin 3]]\<rparr>"
definition ndvi_b :: "fl arr2" where
  "ndvi_b = \<lparr>coords0 = [0], coords1 = [0, 20, 40, 60], cells = [[Fin 1, Fin 1, Fin 1, Fin 1]]\<rparr>"

definition R1 :: "int arr2" where
  "R1 = \<lparr>coords0 = [0, 30], coords1 = [0, 30], cells = [[2, 1], [2, 0]]\<rparr>"
definition R2 :: "int arr2" where
  "R2 = \<lparr>coords0 = [0, 30], coords1 = [0, 30], cells = [[2, 2], [3, 0]]\<rparr>"

definition da0 :: "(string, int) arr3" where
  "da0 = \<lparr>band3 = [''red'', ''nir''], y3 = [20, 10], x3 = [1, 2, 3],
          data3 = [[[1, 2, 3], [4, 5, 6]], [[11, 12, 13], [14, 15, 16]]]\<rparr>"



section \<open>Properties of the water mask\<close>

lemma map2_map_same: "map2 f xs (map g xs) = map (\<lambda>x. f x (g x)) xs"
  by (induction xs) simp_all

lemma water_mask_eq:
  "water_mask r t =
     Inr \<lparr>coords0 = coords0 r, coords1 = coords1 r,
          cells = map (map (\<lambda>v. if v = t then v else 0)) (cells r)\<rparr>"
  by (simp add: water_mask_def where_other_def eq_scalar_def map2_map_same)




section \<open>Properties of array arithmetic on one grid\<close>

lemma zip_upt_same: "map (\<lambda>(i, i'). g i i') (zip [0..<n] [0..<n]) = map (\<lambda>i. g i i) [0..<n]"
  by (simp add: zip_same_conv_map comp_def)

lemma join_inner_same: "join_inner xs xs = Inr (xs, [0..<length xs], [0..<length xs])"
  by (simp add: join_inner_def)

lemma arith2_same_coords:
  assumes "coords0 b = coords0 a" and "coords1 b = coords1 a"
  shows "arith2 f a b =
     Inr \<lparr>coords0 = coords0 a, coords1 = coords1 a,
          cells = map (\<lambda>i. map (\<lambda>j. f (cells a ! i ! j) (cells b ! i ! j))
                                 [0..<length (coords1 a)])
                      [0..<length (coords0 a)]\<rparr>"
  by (simp add: arith2_def assms join_inner_same zip_upt_same)

section \<open>Properties of the vegetation index\<close>

lemma NDVI_same_coords:
  assumes "coords0 red = coords0 nir" and "coords1 red = coords1 nir"
  shows "NDVI nir red =
     Inr \<lparr>coords0 = coords0 nir, coords1 = coords1 nir,
          cells = map (\<lambda>i. map (\<lambda>j. ndvi_px (cells nir ! i ! j) (cells red ! i ! j))
                                 [0..<length (coords1 nir)])
                      [0..<length (coords0 nir)]\<rparr>"
  by (simp add: NDVI_def arith2_same_coords assms ndvi_px_def)

lemma ndvi_px_zero: "nir + red = 0 \<Longrightarrow> nir - red = 0 \<Longrightarrow> ndvi_px nir red = NaN"
  by (simp add: ndvi_px_def fdiv_def)

lemma ndvi_px_nonneg_zero: "0 \<le> nir \<Longrightarrow> 0 \<le> red \<Longrightarrow> nir + red = 0 \<Longrightarrow> ndvi_px nir red = NaN"
  by (simp add: ndvi_px_def fdiv_def)

lemma ndvi_px_inf: "nir + red = 0 \<Longrightarrow> nir - red \<noteq> 0 \<Longrightarrow> ndvi_px nir red \<in> {PInf, NInf}"
  by (simp add: ndvi_px_def fdiv_def)

lemma ndvi_px_range:
  assumes "0 \<le> nir" and "0 \<le> red" and "nir + red \<noteq> 0"
  shows "\<exists>v. ndvi_px nir red = Fin v \<and> - 1 \<le> v \<and> v \<le> 1"
proof -
  have pos: "0 < nir + red" using assms by linarith
  have "- 1 \<le> (nir - red) / (nir + red)"
    using pos assms by (simp add: pos_le_divide_eq)
  moreover have "(nir - red) / (nir + red) \<le> 1"
    using pos assms by (simp add: pos_divide_le_eq)
  ultimately show ?thesis using assms(3) by (simp add: ndvi_px_def fdiv_def)
qed

text \<open>
  C9 (amended): on the two bands of one scene the vegetation index raises nothing
  and keeps the coordinates. A pixel whose sum and difference of the two bands are
  both zero, so every pixel with non-negative band values whose denominator is
  zero, gets the missing-value marker \<open>NaN\<close>; a pixel whose denominator is zero and
  whose numerator is not gets an infinity; a pixel with non-negative band values
  and a nonzero denominator gets a finite value between \<open>-1\<close> and \<open>1\<close>.
\<close>

theorem NDVI_total:
  assumes "wf_arr2 nir" and "wf_arr2 red"
    and "coords0 red = coords0 nir" and "coords1 red = coords1 nir"
  shows "\<exists>r. NDVI nir red = Inr r \<and> coords0 r = coords0 nir \<and> coords1 r = coords1 nir \<and>
     (\<forall>i < length (coords0 nir). \<forall>j < length (coords1 nir).
        cells r ! i ! j = ndvi_px (cells nir ! i ! j) (cells red ! i ! j) \<and>
        (cells nir ! i ! j + cells red ! i ! j = 0 \<and> cells nir ! i ! j - cells red ! i ! j = 0
           \<longrightarrow> cells r ! i ! j = NaN) \<and>
        (cells nir ! i ! j + cells red ! i ! j = 0 \<and> cells nir ! i ! j - cells red ! i ! j \<noteq> 0
           \<longrightarrow> cells r ! i ! j \<in> {PInf, NInf}) \<and>
        (0 \<le> cells nir ! i ! j \<and> 0 \<le> cells red ! i ! j \<and> cells nir ! i ! j + cells red ! i ! j = 0
           \<longrightarrow> cells r ! i ! j = NaN) \<and>
        (0 \<le> cells nir ! i ! j \<and> 0 \<le> cells red ! i ! j \<and> cells nir ! i ! j + cells red ! i ! j \<noteq> 0
           \<longrightarrow> (\<exists>v. cells r ! i ! j = Fin v \<and> - 1 \<le> v \<and> v \<le> 1)))"
proof -
  let ?r = "\<lparr>coords0 = coords0 nir, coords1 = coords1 nir,
          cells = map (\<lambda>i. map (\<lambda>j. ndvi_px (cells nir ! i ! j) (cells red ! i ! j))
                                 [0..<length (coords1 nir)])
                      [0..<length (coords0 nir)]\<rparr>"
  have eq: "NDVI nir red = Inr ?r" by (rule NDVI_same_coords [OF assms(3,4)])
  have cell: "cells ?r ! i ! j = ndvi_px (cells nir ! i ! j) (cells red ! i ! j)"
    if "i < length (coords0 nir)" "j < length (coords1 nir)" for i j
    using that by simp
  show ?thesis
  proof (intro exI [of _ ?r] conjI allI impI)
    show "NDVI nir red = Inr ?r" by (rule eq)
    show "coords0 ?r = coords0 nir" by simp
    show "coords1 ?r = coords1 nir" by simp
  next
    fix i j assume "i < length (coords0 nir)" "j < length (coords1 nir)"
    then show "cells ?r ! i ! j = ndvi_px (cells nir ! i ! j) (cells red ! i ! j)"
      by (rule cell)
  next
    fix i j assume ij: "i < length (coords0 nir)" "j < length (coords1 nir)"
      and "cells nir ! i ! j + cells red ! i ! j = 0 \<and> cells nir ! i ! j - cells red ! i ! j = 0"
    then show "cells ?r ! i ! j = NaN"
      unfolding cell [OF ij] by (simp add: ndvi_px_zero)
  next
    fix i j assume ij: "i < length (coords0 nir)" "j < length (coords1 nir)"
      and "cells nir ! i ! j + cells red ! i ! j = 0 \<and> cells nir ! i ! j - cells red ! i ! j \<noteq> 0"
    then show "cells ?r ! i ! j \<in> {PInf, NInf}"
      unfolding cell [OF ij] using ndvi_px_inf by blast
  next
    fix i j assume ij: "i < length (coords0 nir)" "j < length (coords1 nir)"
      and "0 \<le> cells nir ! i ! j \<and> 0 \<le> cells red ! i ! j \<and> cells nir ! i ! j + cells red ! i ! j = 0"
    then show "cells ?r ! i ! j = NaN"
      unfolding cell [OF ij] by (simp add: ndvi_px_nonneg_zero)
  next
    fix i j assume ij: "i < length (coords0 nir)" "j < length (coords1 nir)"
      and "0 \<le> cells nir ! i ! j \<and> 0 \<le> cells red ! i ! j \<and> cells nir ! i ! j + cells red ! i ! j \<noteq> 0"
    then show "\<exists>v. cells ?r ! i ! j = Fin v \<and> - 1 \<le> v \<and> v \<le> 1"
      unfolding cell [OF ij] using ndvi_px_range by blast
  qed
qed


text \<open>
  C9, as stated, fails where a band value is negative: the pixel with near-infrared
  value 1 and red value \<open>-1\<close> has the denominator 0, and the index there is plus
  infinity, which is not the missing-value marker.
\<close>

theorem NDVI_negative_band_counterexample:
  "NDVI nir1 red1 = Inr \<lparr>coords0 = [0], coords1 = [0], cells = [[PInf]]\<rparr>
   \<and> cells nir1 ! 0 ! 0 + cells red1 ! 0 ! 0 = 0"
  by (simp add: NDVI_same_coords nir1_def red1_def ndvi_px_def fdiv_def)

theorem NDVI_total_witness:
  "wf_arr2 nir0 \<and> wf_arr2 red0 \<and> coords0 red0 = coords0 nir0 \<and> coords1 red0 = coords1 nir0 \<and>
   (\<exists>r. NDVI nir0 red0 = Inr r \<and> cells r ! 0 ! 0 = Fin (1 / 2) \<and> cells r ! 0 ! 1 = NaN)"
proof -
  have w: "wf_arr2 nir0" "wf_arr2 red0" by (simp_all add: wf_arr2_def nir0_def red0_def)
  have c: "coords0 red0 = coords0 nir0" "coords1 red0 = coords1 nir0"
    by (simp_all add: nir0_def red0_def)
  from NDVI_total [OF w c] obtain r where r: "NDVI nir0 red0 = Inr r"
    and cell: "\<forall>i < length (coords0 nir0). \<forall>j < length (coords1 nir0).
        cells r ! i ! j = ndvi_px (cells nir0 ! i ! j) (cells red0 ! i ! j)"
    by blast
  have "cells r ! 0 ! 0 = ndvi_px (cells nir0 ! 0 ! 0) (cells red0 ! 0 ! 0)"
    using cell by (simp add: nir0_def)
  then have a: "cells r ! 0 ! 0 = Fin (1 / 2)"
    by (simp add: nir0_def red0_def ndvi_px_def fdiv_def)
  have "cells r ! 0 ! 1 = ndvi_px (cells nir0 ! 0 ! 1) (cells red0 ! 0 ! 1)"
    using cell by (simp add: nir0_def)
  then have b: "cells r ! 0 ! 1 = NaN"
    by (simp add: nir0_def red0_def ndvi_px_def fdiv_def)
  from w c r a b show ?thesis by blast
qed

section \<open>Properties of the standardizer\<close>

lemma fl_div_rnd_zero:
  "fl_div_rnd rnd a (Fin 0) \<in> {NaN, PInf, NInf} \<and>
   (fl_div_rnd rnd a (Fin 0) = NaN \<longleftrightarrow> a = Fin 0 \<or> a = NaN)"
  by (cases a) (simp_all add: fdiv_def)

text \<open>
  C4 (amended): for every sample matrix, whatever the two reductions return and
  however the arithmetic rounds, the standardizer raises nothing and returns a
  matrix of the same shape. When the standard deviation that \<^verbatim>\<open>std()\<close> returns is
  zero, no output cell is a finite number: a cell is \<open>NaN\<close> where the cell minus the
  mean came out as zero (or as \<open>NaN\<close>), and an infinity everywhere else.
\<close>

theorem rescale_zero_std:
  "\<exists>z. rescaled_xda rnd mean std m = Inr z \<and> map length z = map length m \<and>
     (std (concat m) = Fin 0 \<longrightarrow>
        (\<forall>i < length m. \<forall>j < length (m ! i).
           z ! i ! j \<in> {NaN, PInf, NInf} \<and>
           (z ! i ! j = NaN \<longleftrightarrow>
              fl_sub_rnd rnd (Fin (m ! i ! j)) (mean (concat m)) = Fin 0 \<or>
              fl_sub_rnd rnd (Fin (m ! i ! j)) (mean (concat m)) = NaN)))"
proof -
  let ?z = "map (map (\<lambda>x. fl_div_rnd rnd (fl_sub_rnd rnd (Fin x) (mean (concat m)))
                                  (std (concat m)))) m"
  have eq: "rescaled_xda rnd mean std m = Inr ?z" by (simp add: rescaled_xda_def Let_def)
  have len: "map length ?z = map length m" by simp
  have cell: "?z ! i ! j \<in> {NaN, PInf, NInf} \<and>
           (?z ! i ! j = NaN \<longleftrightarrow>
              fl_sub_rnd rnd (Fin (m ! i ! j)) (mean (concat m)) = Fin 0 \<or>
              fl_sub_rnd rnd (Fin (m ! i ! j)) (mean (concat m)) = NaN)"
    if "std (concat m) = Fin 0" and "i < length m" and "j < length (m ! i)" for i j
  proof -
    have "?z ! i ! j = fl_div_rnd rnd (fl_sub_rnd rnd (Fin (m ! i ! j)) (mean (concat m))) (Fin 0)"
      using that by simp
    then show ?thesis
      by (simp only: fl_div_rnd_zero)
  qed
  from eq len cell show ?thesis by blast
qed

text \<open>
  C4, as stated, fails on the two-by-two matrix of ones. All float64 operations on
  it are exact: \<^verbatim>\<open>mean()\<close> returns 1, \<^verbatim>\<open>std()\<close> returns 0 and every difference is
  0. The standardizer returns a matrix of \<open>NaN\<close>, not an error.
\<close>

theorem rescale_zero_std_counterexample:
  "rescaled_xda Fin (returns (Fin 1)) (returns (Fin 0)) [[1, 1], [1, 1]]
     = Inr [[NaN, NaN], [NaN, NaN]]"
  by (simp add: rescaled_xda_def returns_def Let_def fl_sub_rnd_def fdiv_def)

text \<open>
  On the one-row matrix with the cells 0 and \<^verbatim>\<open>2**-600\<close> the mean is \<^verbatim>\<open>2**-601\<close>,
  the squares of the two differences underflow to zero and \<^verbatim>\<open>std()\<close> returns 0,
  while the differences themselves are not zero: the output is minus and plus
  infinity.
\<close>

theorem rescale_zero_std_witness:
  "returns (Fin 0) (concat [[0, 1 / 2 ^ 600]]) = Fin 0 \<and>
   rescaled_xda Fin (returns (Fin (1 / 2 ^ 601))) (returns (Fin 0)) [[0, 1 / 2 ^ 600]]
     = Inr [[NInf, PInf]]"
proof -
  have lt: "(1::real) / 2 ^ 601 < 1 / 2 ^ 600" by (simp add: field_simps)
  have e: "rescaled_xda Fin (returns (Fin (1 / 2 ^ 601))) (returns (Fin 0)) [[0, 1 / 2 ^ 600]]
             = Inr [[NInf, PInf]]"
    using lt by (simp add: rescaled_xda_def returns_def Let_def fl_sub_rnd_def fdiv_def)
  from rescale_zero_std [of Fin "returns (Fin (1 / 2 ^ 601))" "returns (Fin 0)"
      "[[0, 1 / 2 ^ 600]]"] e
  show ?thesis by (simp add: returns_def)
qed

section \<open>Properties of array arithmetic on two grids\<close>

lemma index_of_nth:
  assumes "distinct xs" and "i < length xs"
  shows "index_of xs (xs ! i) = i"
  using assms
proof (induction xs arbitrary: i)
  case Nil
  then show ?case by simp
next
  case (Cons x xs)
  show ?case
  proof (cases i)
    case 0
    then show ?thesis by (simp add: index_of_def)
  next
    case (Suc k)
    then have k: "k < length xs" using Cons.prems by simp
    then have "xs ! k \<in> set xs" by simp
    then have "x \<noteq> xs ! k" using Cons.prems by auto
    moreover have "index_of xs (xs ! k) = k" using Cons.IH Cons.prems k by simp
    ultimately show ?thesis using Suc by (simp add: index_of_def)
  qed
qed

lemma index_of_upt:
  assumes "distinct xs"
  shows "map (index_of xs) xs = [0..<length xs]"
  by (rule nth_equalityI) (simp_all add: index_of_nth [OF assms])

lemma join_inner_distinct:
  assumes "distinct xs" and "distinct ys"
  shows "join_inner xs ys =
           Inr (filter (\<lambda>c. c \<in> set ys) xs,
                map (index_of xs) (filter (\<lambda>c. c \<in> set ys) xs),
                map (index_of ys) (filter (\<lambda>c. c \<in> set ys) xs))"
proof (cases "xs = ys")
  case True
  then show ?thesis using assms by (simp add: join_inner_def index_of_upt)
next
  case False
  then show ?thesis using assms by (simp add: join_inner_def Let_def)
qed

lemma zip_map_same: "zip (map f xs) (map g xs) = map (\<lambda>x. (f x, g x)) xs"
  by (induction xs) simp_all

lemma arith2_distinct:
  assumes "distinct (coords0 a)" and "distinct (coords1 a)"
    and "distinct (coords0 b)" and "distinct (coords1 b)"
  shows "arith2 f a b =
     Inr \<lparr>coords0 = filter (\<lambda>c. c \<in> set (coords0 b)) (coords0 a),
          coords1 = filter (\<lambda>c. c \<in> set (coords1 b)) (coords1 a),
          cells = map (\<lambda>c0. map (\<lambda>c1. f (cell_at a c0 c1) (cell_at b c0 c1))
                                  (filter (\<lambda>c. c \<in> set (coords1 b)) (coords1 a)))
                      (filter (\<lambda>c. c \<in> set (coords0 b)) (coords0 a))\<rparr>"
  by (simp add: arith2_def join_inner_distinct assms zip_map_same comp_def cell_at_def)

text \<open>
  C6: for every pair of rasters, each with coordinates that do not repeat along an
  axis, the direct difference of the two raises nothing, whether their grids differ
  or not, and returns a raster whose coordinates along each axis are exactly the
  coordinates that both inputs have there; its cell at a pair of coordinates is the
  difference of the two inputs' cells at that pair.
\<close>

theorem NDVI_diff_intersection:
  assumes "distinct (coords0 a)" and "distinct (coords1 a)"
    and "distinct (coords0 b)" and "distinct (coords1 b)"
  shows "\<exists>d. NDVI_diff a b = Inr d \<and> wf_arr2 d \<and>
     set (coords0 d) = set (coords0 a) \<inter> set (coords0 b) \<and>
     set (coords1 d) = set (coords1 a) \<inter> set (coords1 b) \<and>
     distinct (coords0 d) \<and> distinct (coords1 d) \<and>
     (\<forall>i < length (coords0 d). \<forall>j < length (coords1 d).
        cells d ! i ! j = fl_sub (cell_at a (coords0 d ! i) (coords1 d ! j))
                                 (cell_at b (coords0 d ! i) (coords1 d ! j)))"
proof -
  let ?c0 = "filter (\<lambda>c. c \<in> set (coords0 b)) (coords0 a)"
  let ?c1 = "filter (\<lambda>c. c \<in> set (coords1 b)) (coords1 a)"
  let ?d = "\<lparr>coords0 = ?c0, coords1 = ?c1,
             cells = map (\<lambda>c0. map (\<lambda>c1. fl_sub (cell_at a c0 c1) (cell_at b c0 c1)) ?c1) ?c0\<rparr>"
  have eq: "NDVI_diff a b = Inr ?d"
    unfolding NDVI_diff_def by (rule arith2_distinct [OF assms])
  have wf: "wf_arr2 ?d" by (simp add: wf_arr2_def list_all_iff)
  have s0: "set (coords0 ?d) = set (coords0 a) \<inter> set (coords0 b)" by auto
  have s1: "set (coords1 ?d) = set (coords1 a) \<inter> set (coords1 b)" by auto
  have d0: "distinct (coords0 ?d)" using assms(1) by simp
  have d1: "distinct (coords1 ?d)" using assms(2) by simp
  have cell: "\<forall>i < length (coords0 ?d). \<forall>j < length (coords1 ?d).
        cells ?d ! i ! j = fl_sub (cell_at a (coords0 ?d ! i) (coords1 ?d ! j))
                                 (cell_at b (coords0 ?d ! i) (coords1 ?d ! j))"
    by simp
  from eq wf s0 s1 d0 d1 cell show ?thesis by blast
qed

theorem NDVI_diff_intersection_witness:
  "distinct (coords0 ndvi_a) \<and> distinct (coords1 ndvi_a) \<and>
   distinct (coords0 ndvi_b) \<and> distinct (coords1 ndvi_b) \<and>
   (\<exists>d. NDVI_diff ndvi_a ndvi_b = Inr d \<and> set (coords1 d) = {0, 60} \<and>
        d = \<lparr>coords0 = [0], coords1 = [0, 60], cells = [[Fin 0, Fin 2]]\<rparr>)"
proof -
  have h: "distinct (coords0 ndvi_a)" "distinct (coords1 ndvi_a)"
    "distinct (coords0 ndvi_b)" "distinct (coords1 ndvi_b)"
    by (simp_all add: ndvi_a_def ndvi_b_def)
  have e: "NDVI_diff ndvi_a ndvi_b =
      Inr \<lparr>coords0 = [0], coords1 = [0, 60], cells = [[Fin 0, Fin 2]]\<rparr>"
    by (simp add: NDVI_diff_def arith2_def join_inner_def ndvi_a_def ndvi_b_def index_of_def)
  from NDVI_diff_intersection [OF h] h e show ?thesis by auto
qed

section \<open>Frame of the water mask\<close>

text \<open>
  C10: for all label rasters on one grid and all target labels, each mask has the
  coordinates, the row lengths and so the cell count of its input, and the two
  masks subtract without any realignment: the difference raises nothing, has the
  same coordinates, and each of its cells is the difference of the two masks' cells
  at the same position.
\<close>

theorem water_mask_frame:
  assumes "wf_arr2 r1" and "wf_arr2 r2"
    and "coords0 r2 = coords0 r1" and "coords1 r2 = coords1 r1"
  shows "\<exists>m1 m2 d.
     water_mask r1 t1 = Inr m1 \<and> water_mask r2 t2 = Inr m2 \<and>
     coords0 m1 = coords0 r1 \<and> coords1 m1 = coords1 r1 \<and>
     map length (cells m1) = map length (cells r1) \<and> wf_arr2 m1 \<and>
     coords0 m2 = coords0 r2 \<and> coords1 m2 = coords1 r2 \<and>
     map length (cells m2) = map length (cells r2) \<and> wf_arr2 m2 \<and>
     water_diff m1 m2 = Inr d \<and>
     coords0 d = coords0 r1 \<and> coords1 d = coords1 r1 \<and> wf_arr2 d \<and>
     (\<forall>i < length (coords0 r1). \<forall>j < length (coords1 r1).
        cells d ! i ! j = cells m1 ! i ! j - cells m2 ! i ! j)"
proof -
  let ?m1 = "\<lparr>coords0 = coords0 r1, coords1 = coords1 r1,
          cells = map (map (\<lambda>v. if v = t1 then v else 0)) (cells r1)\<rparr>"
  let ?m2 = "\<lparr>coords0 = coords0 r2, coords1 = coords1 r2,
          cells = map (map (\<lambda>v. if v = t2 then v else 0)) (cells r2)\<rparr>"
  let ?d = "\<lparr>coords0 = coords0 ?m1, coords1 = coords1 ?m1,
          cells = map (\<lambda>i. map (\<lambda>j. cells ?m1 ! i ! j - cells ?m2 ! i ! j)
                                 [0..<length (coords1 ?m1)])
                      [0..<length (coords0 ?m1)]\<rparr>"
  have e1: "water_mask r1 t1 = Inr ?m1" by (rule water_mask_eq)
  have e2: "water_mask r2 t2 = Inr ?m2" by (rule water_mask_eq)
  have l1: "map length (cells ?m1) = map length (cells r1)" by simp
  have l2: "map length (cells ?m2) = map length (cells r2)" by simp
  have w1: "wf_arr2 ?m1" using assms(1) by (simp add: wf_arr2_def list_all_iff)
  have w2: "wf_arr2 ?m2" using assms(2) by (simp add: wf_arr2_def list_all_iff)
  have ed: "water_diff ?m1 ?m2 = Inr ?d"
    unfolding water_diff_def by (rule arith2_same_coords) (simp_all add: assms)
  have wd: "wf_arr2 ?d" by (simp add: wf_arr2_def list_all_iff)
  have cell: "\<forall>i < length (coords0 r1). \<forall>j < length (coords1 r1).
        cells ?d ! i ! j = cells ?m1 ! i ! j - cells ?m2 ! i ! j"
    by simp
  have c: "coords0 ?m1 = coords0 r1" "coords1 ?m1 = coords1 r1"
    "coords0 ?m2 = coords0 r2" "coords1 ?m2 = coords1 r2"
    "coords0 ?d = coords0 r1" "coords1 ?d = coords1 r1" by simp_all
  from e1 e2 l1 l2 w1 w2 ed wd cell c show ?thesis by blast
qed

theorem water_mask_frame_witness:
  "wf_arr2 R1 \<and> wf_arr2 R2 \<and> coords0 R2 = coords0 R1 \<and> coords1 R2 = coords1 R1 \<and>
   (\<exists>m1 m2 d. water_mask R1 2 = Inr m1 \<and> water_mask R2 2 = Inr m2 \<and>
      water_diff m1 m2 = Inr d \<and> coords0 d = [0, 30] \<and> coords1 d = [0, 30] \<and>
      cells d = [[0, - 2], [2, 0]])"
proof -
  have w: "wf_arr2 R1" "wf_arr2 R2" by (simp_all add: wf_arr2_def R1_def R2_def)
  have c: "coords0 R2 = coords0 R1" "coords1 R2 = coords1 R1" by (simp_all add: R1_def R2_def)
  have m1: "water_mask R1 2 = Inr \<lparr>coords0 = [0, 30], coords1 = [0, 30], cells = [[2, 0], [2, 0]]\<rparr>"
    by (simp add: water_mask_eq R1_def)
  have m2: "water_mask R2 2 = Inr \<lparr>coords0 = [0, 30], coords1 = [0, 30], cells = [[2, 2], [0, 0]]\<rparr>"
    by (simp add: water_mask_eq R2_def)
  have u: "[0..<2] = [0, Suc 0]" by (simp add: upt_rec)
  have d: "water_diff \<lparr>coords0 = [0, 30], coords1 = [0, 30], cells = [[2, 0], [2, 0]]\<rparr>
             \<lparr>coords0 = [0, 30], coords1 = [0, 30], cells = [[2, 2], [0, 0]]\<rparr>
           = Inr \<lparr>coords0 = [0, 30], coords1 = [0, 30], cells = [[0, - 2], [2, 0]]\<rparr>"
    by (simp add: water_diff_def arith2_same_coords u)
  from water_mask_frame [OF w c, of 2 2] w c m1 m2 d show ?thesis by auto
qed

section \<open>Properties of flatten and un-flatten\<close>

lemma set_first_seen: "set (first_seen cs) = set cs"
  by (induction cs) auto

lemma first_seen_distinct: "distinct cs \<Longrightarrow> first_seen cs = cs"
proof (induction cs)
  case Nil
  then show ?case by simp
next
  case (Cons c cs)
  then have "filter (\<lambda>d. d \<noteq> c) cs = cs" by (auto intro: filter_True)
  with Cons show ?case by simp
qed

lemma first_seen_append:
  "first_seen (ys @ zs) = first_seen ys @ filter (\<lambda>z. z \<notin> set ys) (first_seen zs)"
proof (induction ys)
  case Nil
  then show ?case by simp
next
  case (Cons y ys)
  have "filter (\<lambda>d. d \<noteq> y) (filter (\<lambda>z. z \<notin> set ys) (first_seen zs))
        = filter (\<lambda>z. z \<notin> set (y # ys)) (first_seen zs)"
    by (auto intro: filter_cong)
  with Cons show ?case by simp
qed

lemma first_seen_const:
  "ys \<noteq> [] \<Longrightarrow> first_seen (map (\<lambda>y. c) ys) = [c]"
proof (induction ys)
  case Nil
  then show ?case by simp
next
  case (Cons y ys)
  show ?case
  proof (cases "ys = []")
    case True
    then show ?thesis by simp
  next
    case False
    with Cons show ?thesis by simp
  qed
qed

lemma first_seen_product_fst:
  assumes "ys \<noteq> []"
  shows "distinct cs \<Longrightarrow> first_seen (map fst (List.product cs ys)) = cs"
proof (induction cs)
  case Nil
  then show ?case by simp
next
  case (Cons c cs)
  have s: "set (map (\<lambda>y. c) ys) = {c}" using assms by (cases ys) auto
  have f: "filter (\<lambda>z. z \<noteq> c) cs = cs" using Cons.prems by (auto intro: filter_True)
  have "first_seen (map fst (List.product (c # cs) ys))
        = first_seen (map (\<lambda>y. c) ys @ map fst (List.product cs ys))"
    by (simp add: comp_def)
  also have "\<dots> = [c] @ filter (\<lambda>z. z \<notin> {c}) cs"
    unfolding first_seen_append s using Cons first_seen_const [OF assms] by simp
  finally show ?case using f by simp
qed

lemma first_seen_product_snd:
  assumes "distinct ys"
  shows "cs \<noteq> [] \<Longrightarrow> first_seen (map snd (List.product cs ys)) = ys"
proof (induction cs)
  case Nil
  then show ?case by simp
next
  case (Cons c cs)
  have sub: "set (map snd (List.product cs ys)) \<subseteq> set ys" by auto
  have "first_seen (map snd (List.product (c # cs) ys))
        = first_seen (ys @ map snd (List.product cs ys))"
    by (simp add: comp_def)
  also have "\<dots> = ys @ filter (\<lambda>z. z \<notin> set ys) (first_seen (map snd (List.product cs ys)))"
    by (simp add: first_seen_append first_seen_distinct [OF assms])
  also have "filter (\<lambda>z. z \<notin> set ys) (first_seen (map snd (List.product cs ys))) = []"
    using sub by (auto simp: filter_empty_conv set_first_seen)
  finally show ?case by simp
qed

lemma product_index_less:
  assumes "i < (m::nat)" and "j < n"
  shows "i * n + j < m * n"
proof -
  have "i * n + j < i * n + n" using assms(2) by simp
  also have "\<dots> = Suc i * n" by simp
  also have "\<dots> \<le> m * n" using assms(1) by (intro mult_le_mono1) simp
  finally show ?thesis .
qed

lemma map_of_product:
  assumes "distinct cs" and "distinct ds" and "i < length cs" and "j < length ds"
  shows "map_of (zip (List.product cs ds)
                     (map (\<lambda>(i, j). g i j) (List.product [0..<length cs] [0..<length ds])))
           (cs ! i, ds ! j) = Some (g i j)"
proof -
  let ?n = "i * length ds + j"
  let ?vals = "map (\<lambda>(i, j). g i j) (List.product [0..<length cs] [0..<length ds])"
  have n: "?n < length cs * length ds" by (rule product_index_less [OF assms(3,4)])
  have nz: "length ds \<noteq> 0" using assms(4) by auto
  have dv: "?n div length ds = i" using assms(4) nz by (simp add: add.commute)
  have md: "?n mod length ds = j" using assms(4) nz by (simp add: add.commute)
  have key: "List.product cs ds ! ?n = (cs ! i, ds ! j)"
    unfolding product_nth [OF n] dv md ..
  have n': "?n < length [0..<length cs] * length [0..<length ds]" using n by simp
  have "List.product [0..<length cs] [0..<length ds] ! ?n = ([0..<length cs] ! i, [0..<length ds] ! j)"
    unfolding product_nth [OF n'] using dv md by simp
  then have val: "?vals ! ?n = g i j"
    using n assms(3,4) by simp
  have "map_of (zip (List.product cs ds) ?vals) (List.product cs ds ! ?n) = Some (?vals ! ?n)"
    by (rule map_of_zip_nth) (simp_all add: n distinct_product assms)
  then show ?thesis by (simp only: key val)
qed

lemma column_flattened:
  assumes "wf_arr3 a" and "k < length (band3 a)"
  shows "column (flattened_t_xda a) k =
     Inr \<lparr>vz = List.product (x3 a) (y3 a),
          vdata = map (\<lambda>(i, j). data3 a ! k ! j ! i)
                      (List.product [0..<length (x3 a)] [0..<length (y3 a)])\<rparr>"
proof -
  let ?nz = "length (List.product (x3 a) (y3 a))"
  let ?col = "map (\<lambda>(i, j). data3 a ! k ! j ! i)
                      (List.product [0..<length (x3 a)] [0..<length (y3 a)])"
  have k: "k < length (data3 a)" using assms by (simp add: wf_arr3_def)
  have len: "length ?col = ?nz" by simp
  have sd: "sdata (stack_z a) ! k = ?col" using k by (simp add: stack_z_def)
  have lsd: "k < length (sdata (stack_z a))" using k by (simp add: stack_z_def)
  have "map (\<lambda>row. row ! k) (fdata (flattened_t_xda a))
        = map (\<lambda>n. sdata (stack_z a) ! k ! n) [0..<?nz]"
    using lsd by (simp add: flattened_t_xda_def transpose_z_band_def stack_z_def comp_def)
  also have "\<dots> = map (\<lambda>n. ?col ! n) [0..<length ?col]"
    unfolding sd len ..
  also have "\<dots> = ?col" by (rule map_nth)
  finally have v: "map (\<lambda>row. row ! k) (fdata (flattened_t_xda a)) = ?col" .
  have "fz (flattened_t_xda a) = List.product (x3 a) (y3 a)"
    by (simp add: flattened_t_xda_def transpose_z_band_def stack_z_def)
  moreover have "fband (flattened_t_xda a) = band3 a"
    by (simp add: flattened_t_xda_def transpose_z_band_def stack_z_def)
  ultimately show ?thesis using assms(2) v by (simp add: column_def)
qed

lemma unstack_product:
  assumes "distinct cs" and "distinct ds" and "cs \<noteq> []" and "ds \<noteq> []"
  shows "unstack \<lparr>vz = List.product cs ds,
                  vdata = map (\<lambda>(i, j). g i j) (List.product [0..<length cs] [0..<length ds])\<rparr>
         = Inr \<lparr>coords0 = cs, coords1 = ds,
                cells = map (\<lambda>i. map (\<lambda>j. Some (g i j)) [0..<length ds]) [0..<length cs]\<rparr>"
proof -
  let ?m = "map_of (zip (List.product cs ds)
                     (map (\<lambda>(i, j). g i j) (List.product [0..<length cs] [0..<length ds])))"
  have inner: "map (\<lambda>cy. ?m (cs ! i, cy)) ds = map (\<lambda>j. Some (g i j)) [0..<length ds]"
    if "i < length cs" for i
    by (rule nth_equalityI) (simp_all add: map_of_product [OF assms(1,2) that])
  have "map (\<lambda>cx. map (\<lambda>cy. ?m (cx, cy)) ds) cs
        = map (\<lambda>i. map (\<lambda>j. Some (g i j)) [0..<length ds]) [0..<length cs]"
    by (rule nth_equalityI) (simp_all add: inner)
  then show ?thesis
    using assms
    by (simp add: unstack_def Let_def distinct_product first_seen_product_fst
        first_seen_product_snd)
qed

text \<open>
  C1: for every raster with at least one pixel and with coordinates that do not
  repeat along \<^verbatim>\<open>x\<close> or \<^verbatim>\<open>y\<close>, and for each of its bands, flattening the raster
  into the sample matrix and un-flattening the band's column of that matrix, by
  copying it onto the template with the stacked coordinates and unstacking, raises
  nothing and returns the \<^verbatim>\<open>x\<close> and \<^verbatim>\<open>y\<close> coordinates of the raster, in their
  order, and at each pair of them the value the raster has there for that band, with
  no cell missing; the axes come back in the order \<^verbatim>\<open>(x, y)\<close>.
\<close>

theorem flatten_unflatten_roundtrip:
  assumes "wf_arr3 a" and "distinct (x3 a)" and "distinct (y3 a)"
    and "x3 a \<noteq> []" and "y3 a \<noteq> []" and "k < length (band3 a)"
  shows "unstacked (flattened_t_xda a) (map (\<lambda>row. row ! k) (fdata (flattened_t_xda a)))
         = Inr \<lparr>coords0 = x3 a, coords1 = y3 a,
                cells = map (\<lambda>i. map (\<lambda>j. Some (data3 a ! k ! j ! i)) [0..<length (y3 a)])
                            [0..<length (x3 a)]\<rparr>"
proof -
  let ?col = "\<lambda>k. map (\<lambda>(i, j). data3 a ! k ! j ! i)
                      (List.product [0..<length (x3 a)] [0..<length (y3 a)])"
  have b0: "0 < length (band3 a)" using assms(6) by (cases "band3 a") simp_all
  have t: "column (flattened_t_xda a) 0 = Inr \<lparr>vz = List.product (x3 a) (y3 a), vdata = ?col 0\<rparr>"
    by (rule column_flattened [OF assms(1) b0])
  have "column (flattened_t_xda a) k = Inr \<lparr>vz = List.product (x3 a) (y3 a), vdata = ?col k\<rparr>"
    by (rule column_flattened [OF assms(1,6)])
  then have labels: "map (\<lambda>row. row ! k) (fdata (flattened_t_xda a)) = ?col k"
    using assms(6) by (simp add: column_def split: if_splits)
  have c: "copy_data \<lparr>vz = List.product (x3 a) (y3 a), vdata = ?col 0\<rparr> (?col k)
           = Inr \<lparr>vz = List.product (x3 a) (y3 a), vdata = ?col k\<rparr>"
    by (simp add: copy_data_def)
  show ?thesis
    unfolding unstacked_def labels t using c
    by (simp add: unstack_product [OF assms(2,3,4,5)])
qed

theorem flatten_unflatten_roundtrip_witness:
  "wf_arr3 da0 \<and> distinct (x3 da0) \<and> distinct (y3 da0) \<and> x3 da0 \<noteq> [] \<and> y3 da0 \<noteq> [] \<and>
   1 < length (band3 da0) \<and>
   unstacked (flattened_t_xda da0) (map (\<lambda>row. row ! 1) (fdata (flattened_t_xda da0)))
     = Inr \<lparr>coords0 = [1, 2, 3], coords1 = [20, 10],
            cells = [[Some 11, Some 14], [Some 12, Some 15], [Some 13, Some 16]]\<rparr>"
proof -
  have w: "wf_arr3 da0" by (simp add: wf_arr3_def da0_def)
  have d: "distinct (x3 da0)" "distinct (y3 da0)" "x3 da0 \<noteq> []" "y3 da0 \<noteq> []"
    by (simp_all add: da0_def)
  have k: "1 < length (band3 da0)" by (simp add: da0_def)
  have u: "[0..<2] = [0, Suc 0]" "[0..<3] = [0, Suc 0, Suc (Suc 0)]"
    by (simp_all add: upt_rec)
  have r: "\<lparr>coords0 = x3 da0, coords1 = y3 da0,
            cells = map (\<lambda>i. map (\<lambda>j. Some (data3 da0 ! 1 ! j ! i)) [0..<length (y3 da0)])
                        [0..<length (x3 da0)]\<rparr>
           = \<lparr>coords0 = [1, 2, 3], coords1 = [20, 10],
            cells = [[Some 11, Some 14], [Some 12, Some 15], [Some 13, Some 16]]\<rparr>"
    by (simp add: da0_def u)
  from flatten_unflatten_roundtrip [OF w d k] w d k show ?thesis
    unfolding r by simp
qed

section \<open>Properties of the downsampler\<close>















end
